theory Spec2Isabelle
  imports Complex_Main "HOL-Library.Word"
begin

text \<open>
  The state and the handlers of the \<open>App\<close> component of OpenSquare
  (\<^verbatim>\<open>src/frontend/App.js\<close>): the health probe, the document list, the chat exchange,
  the file upload with its progress, and the loading of the sample data. Each async
  handler is split at its \<open>await\<close> into the part that runs at the call and the part
  that runs when the request settles; what the backend answers and what the clock reads
  are inputs.
\<close>

section \<open>JavaScript values as the handlers of App.js see them\<close>

text \<open>
  A JavaScript string is a sequence of UTF-16 code units. Literals of the source that are
  plain ASCII are written with \<open>ascii\<close>.
\<close>

type_synonym js_string = "nat list"

definition ascii :: "string \<Rightarrow> js_string" where
  "ascii s = map of_char s"

text \<open>
  \<open>String.prototype.trim\<close> removes white space and line terminators from both ends:
  TAB, LF, VT, FF, CR, SP, NBSP, U+1680, U+2000..U+200A, LS, PS, U+202F, U+205F, U+3000
  and the byte order mark.
\<close>

definition isWhiteSpace :: "nat \<Rightarrow> bool" where
  "isWhiteSpace c =
     (c \<in> {0x9, 0xA, 0xB, 0xC, 0xD, 0x20, 0xA0, 0x1680, 0x2028, 0x2029, 0x202F, 0x205F,
            0x3000, 0xFEFF}
      \<or> (0x2000 \<le> c \<and> c \<le> 0x200A))"

definition trim :: "js_string \<Rightarrow> js_string" where
  "trim s = rev (dropWhile isWhiteSpace (rev (dropWhile isWhiteSpace s)))"

text \<open>
  The values a JSON response body can hold, and \<open>undefined\<close>. Numbers are the
  non-negative integers below \<open>2 ^ 53\<close>, each of which a JavaScript number holds
  exactly; an object is the list of its own properties.
\<close>

datatype js_value =
    JUndefined
  | JNull
  | JBool bool
  | JNum "53 word"
  | JStr js_string
  | JArr "js_value list"
  | JObj "(js_string \<times> js_value) list"

text \<open>\<open>ToBoolean\<close>: what \<open>!v\<close>, \<open>v || w\<close> and \<open>v && w\<close> test.\<close>

fun truthy :: "js_value \<Rightarrow> bool" where
  "truthy JUndefined = False"
| "truthy JNull = False"
| "truthy (JBool b) = b"
| "truthy (JNum n) = (n \<noteq> 0)"
| "truthy (JStr s) = (s \<noteq> [])"
| "truthy (JArr xs) = True"
| "truthy (JObj fs) = True"

text \<open>The decimal digits of a natural number, as code units.\<close>

fun digits :: "nat \<Rightarrow> js_string" where
  "digits n = (if n < 10 then [48 + n] else digits (n div 10) @ [48 + n mod 10])"

declare digits.simps [simp del]

text \<open>
  \<open>ToString\<close>, which a template literal applies to each substitution. An integer
  below \<open>2 ^ 53\<close> prints as its decimal digits. An array is joined with commas,
  \<open>null\<close> and \<open>undefined\<close> elements giving the empty string; an object prints
  as \<open>[object Object]\<close>.
\<close>

fun join_comma :: "js_string list \<Rightarrow> js_string" where
  "join_comma [] = []"
| "join_comma [s] = s"
| "join_comma (s # t # ss) = s @ [44] @ join_comma (t # ss)"

fun toString :: "js_value \<Rightarrow> js_string" where
  "toString JUndefined = ascii ''undefined''"
| "toString JNull = ascii ''null''"
| "toString (JBool b) = (if b then ascii ''true'' else ascii ''false'')"
| "toString (JNum n) = digits (unat n)"
| "toString (JStr s) = s"
| "toString (JArr xs) =
     join_comma (map (\<lambda>x. if x = JUndefined \<or> x = JNull then [] else toString x) xs)"
| "toString (JObj fs) = ascii ''[object Object]''"

text \<open>
  What axios hands to the caller. A fulfilled request carries a response, of which the
  handlers read only \<open>data\<close>. A rejected one carries an error with a \<open>message\<close> and,
  when the server answered with a status outside 2xx, the \<open>response\<close>. The other error
  a \<open>try\<close> block of App.js can raise is the \<open>TypeError\<close> of reading a property of
  \<open>null\<close> or \<open>undefined\<close>; it has a message and no \<open>response\<close> property.
\<close>

record response =
  data :: js_value

datatype js_error =
    AxiosError js_string "response option"
  | TypeError js_string

fun error_message :: "js_error \<Rightarrow> js_string" where
  "error_message (AxiosError m r) = m"
| "error_message (TypeError m) = m"

fun error_response :: "js_error \<Rightarrow> response option" where
  "error_response (AxiosError m r) = r"
| "error_response (TypeError m) = None"

datatype outcome = Resolved response | Rejected js_error

text \<open>
  Property read \<open>v.p\<close>. On \<open>null\<close> and \<open>undefined\<close> it throws (the message is V8's
  wording). On an object it yields the own property, \<open>undefined\<close> when there is none. On
  the other values it yields \<open>undefined\<close>: the names App.js reads (\<open>status\<close>,
  \<open>documents\<close>, \<open>answer\<close>, \<open>sources\<close>, \<open>filename\<close>, \<open>size\<close>, \<open>message\<close>)
  are on no prototype.
\<close>

definition cannot_read :: "js_string \<Rightarrow> js_string \<Rightarrow> js_error" where
  "cannot_read what p =
     TypeError (ascii ''Cannot read properties of '' @ what @ ascii '' (reading '' @ [39] @ p
       @ [39] @ ascii '')'')"

fun get_prop :: "js_value \<Rightarrow> js_string \<Rightarrow> js_error + js_value" where
  "get_prop JUndefined p = Inl (cannot_read (ascii ''undefined'') p)"
| "get_prop JNull p = Inl (cannot_read (ascii ''null'') p)"
| "get_prop (JObj fs) p = Inr (case map_of fs p of None \<Rightarrow> JUndefined | Some v \<Rightarrow> v)"
| "get_prop v p = Inr JUndefined"

text \<open>Optional chaining \<open>v?.p\<close>: \<open>undefined\<close> instead of the throw.\<close>

definition get_prop_opt :: "js_value \<Rightarrow> js_string \<Rightarrow> js_value" where
  "get_prop_opt v p = (case get_prop v p of Inl e \<Rightarrow> JUndefined | Inr w \<Rightarrow> w)"

text \<open>
  A number as \<open>Math.round\<close> returns it and \<open>uploadProgress\<close> holds it: an integer,
  \<open>NaN\<close> or \<open>Infinity\<close>.
\<close>

datatype js_number = Finite int | NaN | Infinity

text \<open>
  The arithmetic of \<open>onUploadProgress\<close> is on IEEE 754 doubles. Every double that
  occurs there is finite, not negative and, if not zero, within \<open>2 ^ - 64\<close> and
  \<open>2 ^ 71\<close> (the operands are byte counts below \<open>2 ^ 64\<close>), so it is modelled by the
  rational it stands for, and an operation is the exact one followed by rounding to the
  nearest double, a tie going to the even significand. Overflow and subnormal numbers,
  which start at \<open>2 ^ 1024\<close> and below \<open>2 ^ - 1022\<close>, are out of reach of these
  values and are not modelled.

  \<open>binade x\<close> is the exponent \<open>e\<close> with \<open>2 ^ e \<le> x < 2 ^ (e + 1)\<close>.
\<close>

function binade :: "rat \<Rightarrow> int" where
  "binade x =
     (if x \<le> 0 then 0
      else if 2 \<le> x then binade (x / 2) + 1
      else if x < 1 then binade (x * 2) - 1
      else 0)"
  by pat_completeness auto
termination
proof (relation "measure (\<lambda>x. nat (2 * \<lceil>1 / x\<rceil> + \<lfloor>x\<rfloor>))")
  show "wf (measure (\<lambda>x. nat (2 * \<lceil>1 / x\<rceil> + \<lfloor>x\<rfloor>)))" by simp
next
  fix x :: rat
  assume "\<not> x \<le> 0" and x: "2 \<le> x"
  have c1: "\<lceil>1 / (x / 2)\<rceil> = 1"
    using x by (intro ceiling_unique) (simp_all add: field_simps)
  have c2: "\<lceil>1 / x\<rceil> = 1"
    using x by (intro ceiling_unique) (simp_all add: field_simps)
  have "of_int \<lfloor>x / 2\<rfloor> \<le> x / 2" by (rule of_int_floor_le)
  also have "\<dots> \<le> x - 1" using x by simp
  also have "\<dots> < of_int \<lfloor>x\<rfloor>" by linarith
  finally have f: "\<lfloor>x / 2\<rfloor> < \<lfloor>x\<rfloor>" by simp
  have "0 \<le> \<lfloor>x\<rfloor>" using x by simp
  then have "0 < 2 * \<lceil>1 / x\<rceil> + \<lfloor>x\<rfloor>" unfolding c2 by linarith
  moreover have "2 * \<lceil>1 / (x / 2)\<rceil> + \<lfloor>x / 2\<rfloor> < 2 * \<lceil>1 / x\<rceil> + \<lfloor>x\<rfloor>"
    using c1 c2 f by simp
  ultimately show "(x / 2, x) \<in> measure (\<lambda>x. nat (2 * \<lceil>1 / x\<rceil> + \<lfloor>x\<rfloor>))"
    by simp
next
  fix x :: rat
  assume "\<not> x \<le> 0" and "\<not> 2 \<le> x" and x1: "x < 1"
  then have x0: "0 < x" by simp
  have f0: "\<lfloor>x\<rfloor> = 0" using x0 x1 by (intro floor_unique) simp_all
  have f1: "\<lfloor>x * 2\<rfloor> \<le> 1"
  proof -
    have "x * 2 < 2" using x1 by simp
    then have "\<lfloor>x * 2\<rfloor> < 2" by (simp add: floor_less_iff)
    then show ?thesis by simp
  qed
  define y where "y = 1 / x"
  have y: "1 < y" using x0 x1 by (simp add: y_def field_simps)
  have h: "1 / (x * 2) = y / 2" by (simp add: y_def)
  have c: "\<lceil>y / 2\<rceil> < \<lceil>y\<rceil>"
  proof (cases "y \<le> 2")
    case True
    have "\<lceil>y\<rceil> = 2" using y True by (intro ceiling_unique) simp_all
    moreover have "\<lceil>y / 2\<rceil> = 1" using y True by (intro ceiling_unique) simp_all
    ultimately show ?thesis by simp
  next
    case False
    have "of_int \<lceil>y / 2\<rceil> < y / 2 + 1" by linarith
    also have "\<dots> < y" using False by linarith
    also have "\<dots> \<le> of_int \<lceil>y\<rceil>" by (rule le_of_int_ceiling)
    finally show ?thesis by simp
  qed
  have "0 < \<lceil>y\<rceil>" using y by (simp add: less_ceiling_iff)
  then have "0 < 2 * \<lceil>1 / x\<rceil> + \<lfloor>x\<rfloor>" using f0 by (simp add: y_def)
  moreover have "2 * \<lceil>1 / (x * 2)\<rceil> + \<lfloor>x * 2\<rfloor> < 2 * \<lceil>1 / x\<rceil> + \<lfloor>x\<rfloor>"
  proof -
    have "\<lceil>1 / (x * 2)\<rceil> < \<lceil>1 / x\<rceil>" using c unfolding h by (simp add: y_def)
    then show ?thesis using f0 f1 by linarith
  qed
  ultimately show "(x * 2, x) \<in> measure (\<lambda>x. nat (2 * \<lceil>1 / x\<rceil> + \<lfloor>x\<rfloor>))"
    by simp
qed

declare binade.simps [simp del]

text \<open>To the nearest integer, a tie going to the even one.\<close>

definition round_even :: "rat \<Rightarrow> int" where
  "round_even q =
     (let f = \<lfloor>q\<rfloor>; r = q - of_int f
      in if r < 1 / 2 then f else if 1 / 2 < r then f + 1 else if even f then f else f + 1)"

text \<open>
  The double nearest to \<open>x\<close>: its significand is \<open>x\<close> in units of
  \<open>2 ^ (binade x - 52)\<close>, rounded to an integer of at most 53 bits.
\<close>

definition to_double :: "rat \<Rightarrow> rat" where
  "to_double x =
     (if x = 0 then 0
      else let u = 2 powi (binade \<bar>x\<bar> - 52)
           in sgn x * of_int (round_even (\<bar>x\<bar> / u)) * u)"

text \<open>An unsigned integer of the DOM as a number of JavaScript.\<close>

definition to_number :: "nat \<Rightarrow> rat" where
  "to_number n = to_double (of_nat n)"

text \<open>
  \<open>Math.round\<close> takes the integer nearest to its argument, a tie going up; on the
  doubles that occur here that integer is a double again.
\<close>

definition Math_round :: "rat \<Rightarrow> int" where
  "Math_round x = \<lfloor>x + 1 / 2\<rfloor>"

section \<open>The state of the App component\<close>

datatype page = Home | Chat | Documents

datatype api_status = Checking | Online | Offline

datatype entry_type = User | Assistant | Error | Success

text \<open>
  One element of \<open>messages\<close>. \<open>sources\<close> is \<open>None\<close> on the entries whose object
  literal has no such property.
\<close>

record message =
  id_msg :: int
  type_msg :: entry_type
  content :: js_value
  sources :: "js_value option"
  timestamp :: int

record app_state =
  currentPage :: page
  messages :: "message list"
  inputValue :: js_string
  isLoading :: bool
  documents :: js_value
  uploadProgress :: js_number
  apiStatus :: api_status

text \<open>The \<open>useState\<close> initial values.\<close>

definition initial_state :: app_state where
  "initial_state =
     \<lparr>currentPage = Home, messages = [], inputValue = [], isLoading = False,
      documents = JArr [], uploadProgress = Finite 0, apiStatus = Checking\<rparr>"

section \<open>Requests, continuations and effects\<close>

text \<open>
  \<open>Date.now()\<close> and \<open>new Date()\<close> as read while an entry is built: both in
  milliseconds since the epoch.
\<close>

record clock =
  Date_now :: int
  new_Date :: int

record js_file =
  file_name :: js_string
  file_size :: nat

datatype form_value = FormFile js_file | FormString js_string

datatype body = NoBody | JsonBody js_value | FormBody "(js_string \<times> form_value) list"

text \<open>A request of axios; the path is relative to \<open>API_BASE_URL\<close>.\<close>

datatype request = Get js_string | Post js_string body

text \<open>
  An async handler runs up to its \<open>await\<close>, and the rest of it runs when the request
  settles. The rest is a continuation: it names the handler and holds the variables of
  the handler's closure that the rest reads. The closure of a handler is the one of the
  render that created it, so \<open>messages\<close> read after the \<open>await\<close> is the list that
  was current when the handler was called.
\<close>

datatype continuation =
    CheckApiHealth_k
  | LoadDocuments_k
  | HandleSendMessage_k
  | HandleFileUpload_k "message list"
  | LoadSampleData_k "message list"

datatype effect =
    Dispatch request continuation
  | ConsoleError js_string js_error

section \<open>The handlers\<close>

subsection \<open>checkApiHealth\<close>

definition success :: js_value where
  "success = JStr (ascii ''success'')"

definition checkApiHealth :: "app_state \<Rightarrow> app_state \<times> effect list" where
  "checkApiHealth s = (s, [Dispatch (Get (ascii ''/health'')) CheckApiHealth_k])"

definition checkApiHealth_catch :: "js_error \<Rightarrow> app_state \<Rightarrow> app_state \<times> effect list" where
  "checkApiHealth_catch e s =
     (s\<lparr>apiStatus := Offline\<rparr>, [ConsoleError (ascii ''API Health Check Failed:'') e])"

definition checkApiHealth_resume :: "outcome \<Rightarrow> app_state \<Rightarrow> app_state \<times> effect list" where
  "checkApiHealth_resume out s =
     (case out of
        Rejected e \<Rightarrow> checkApiHealth_catch e s
      | Resolved r \<Rightarrow>
          (case get_prop (data r) (ascii ''status'') of
             Inl e \<Rightarrow> checkApiHealth_catch e s
           | Inr st \<Rightarrow> if st = success then (s\<lparr>apiStatus := Online\<rparr>, []) else (s, [])))"

subsection \<open>loadDocuments\<close>

definition loadDocuments :: "app_state \<Rightarrow> app_state \<times> effect list" where
  "loadDocuments s = (s, [Dispatch (Get (ascii ''/documents'')) LoadDocuments_k])"

definition loadDocuments_catch :: "js_error \<Rightarrow> app_state \<Rightarrow> app_state \<times> effect list" where
  "loadDocuments_catch e s = (s, [ConsoleError (ascii ''Error loading documents:'') e])"

definition loadDocuments_resume :: "outcome \<Rightarrow> app_state \<Rightarrow> app_state \<times> effect list" where
  "loadDocuments_resume out s =
     (case out of
        Rejected e \<Rightarrow> loadDocuments_catch e s
      | Resolved r \<Rightarrow>
          (case get_prop (data r) (ascii ''status'') of
             Inl e \<Rightarrow> loadDocuments_catch e s
           | Inr st \<Rightarrow>
               if st = success
               then (case get_prop (data r) (ascii ''documents'') of
                       Inl e \<Rightarrow> loadDocuments_catch e s
                     | Inr d \<Rightarrow> (s\<lparr>documents := d\<rparr>, []))
               else (s, [])))"

subsection \<open>handleSendMessage\<close>

definition connect_error_text :: js_string where
  "connect_error_text =
     ascii ''Error: Could not connect to backend. Please check if the server is running.''"

definition handleSendMessage :: "clock \<Rightarrow> app_state \<Rightarrow> app_state \<times> effect list" where
  "handleSendMessage c s =
     (if trim (inputValue s) = [] then (s, [])
      else
        let userMessage =
              \<lparr>id_msg = Date_now c, type_msg = User, content = JStr (inputValue s),
               sources = None, timestamp = new_Date c\<rparr>
        in (s\<lparr>messages := messages s @ [userMessage], inputValue := [], isLoading := True\<rparr>,
            [Dispatch
               (Post (ascii ''/chat'') (JsonBody (JObj [(ascii ''query'', JStr (inputValue s))])))
               HandleSendMessage_k]))"

definition handleSendMessage_catch :: "clock \<Rightarrow> app_state \<Rightarrow> app_state" where
  "handleSendMessage_catch c s =
     (let errorMessage =
            \<lparr>id_msg = Date_now c + 1, type_msg = Error, content = JStr connect_error_text,
             sources = None, timestamp = new_Date c\<rparr>
      in s\<lparr>messages := messages s @ [errorMessage]\<rparr>)"

text \<open>
  The \<open>try\<close> block after the \<open>await\<close>. The functional update
  \<open>setMessages(prev => [...prev, m])\<close> appends to the list that is current when the
  request settles. \<open>finally\<close> clears the loading flag on every path.
\<close>

definition handleSendMessage_try :: "clock \<Rightarrow> outcome \<Rightarrow> app_state \<Rightarrow> app_state" where
  "handleSendMessage_try c out s =
     (case out of
        Rejected e \<Rightarrow> handleSendMessage_catch c s
      | Resolved r \<Rightarrow>
          (case get_prop (data r) (ascii ''answer'') of
             Inl e \<Rightarrow> handleSendMessage_catch c s
           | Inr a \<Rightarrow>
               (case get_prop (data r) (ascii ''sources'') of
                  Inl e \<Rightarrow> handleSendMessage_catch c s
                | Inr srcs \<Rightarrow>
                    let aiMessage =
                          \<lparr>id_msg = Date_now c + 1, type_msg = Assistant, content = a,
                           sources = Some srcs, timestamp = new_Date c\<rparr>
                    in s\<lparr>messages := messages s @ [aiMessage]\<rparr>)))"

definition handleSendMessage_resume ::
    "clock \<Rightarrow> outcome \<Rightarrow> app_state \<Rightarrow> app_state \<times> effect list" where
  "handleSendMessage_resume c out s = ((handleSendMessage_try c out s)\<lparr>isLoading := False\<rparr>, [])"

subsection \<open>handleFileUpload\<close>

text \<open>
  \<open>e.target.files[0]\<close> is \<open>None\<close> when the change event carries no file; \<open>year\<close>
  is \<open>new Date().getFullYear()\<close>, a year of the common era.
\<close>

definition handleFileUpload ::
    "js_file option \<Rightarrow> 53 word \<Rightarrow> app_state \<Rightarrow> app_state \<times> effect list" where
  "handleFileUpload f year s =
     (case f of
        None \<Rightarrow> (s, [])
      | Some file \<Rightarrow>
          let formData =
                [(ascii ''file'', FormFile file),
                 (ascii ''organization'', FormString (ascii ''Sample Organization'')),
                 (ascii ''doc_type'', FormString (ascii ''Financial Document'')),
                 (ascii ''year'', FormString (toString (JNum year)))]
          in (s\<lparr>isLoading := True, uploadProgress := Finite 0\<rparr>,
              [Dispatch (Post (ascii ''/upload'') (FormBody formData))
                 (HandleFileUpload_k (messages s))]))"

text \<open>
  The progress event: \<open>loaded\<close> and \<open>total\<close> are the \<open>unsigned long long\<close>
  counts of the DOM event, and \<open>total\<close> is \<open>undefined\<close> when axios passes none
  because the length is not computable. \<open>x / undefined\<close> and \<open>0 / 0\<close> are \<open>NaN\<close>,
  a positive number over zero is \<open>Infinity\<close>, and \<open>Math.round\<close> keeps both.
  Otherwise the product \<open>loaded * 100\<close> and the quotient are each rounded to a double.
\<close>

record progress_event =
  loaded :: "64 word"
  total :: "64 word option"

definition percentComplete :: "progress_event \<Rightarrow> js_number" where
  "percentComplete ev =
     (case total ev of
        None \<Rightarrow> NaN
      | Some t \<Rightarrow>
          let product = to_double (to_number (unat (loaded ev)) * 100);
              divisor = to_number (unat t)
          in if divisor = 0 then (if product = 0 then NaN else Infinity)
             else Finite (Math_round (to_double (product / divisor))))"

definition onUploadProgress :: "progress_event \<Rightarrow> app_state \<Rightarrow> app_state" where
  "onUploadProgress ev s = s\<lparr>uploadProgress := percentComplete ev\<rparr>"

text \<open>
  The first three characters of the two success texts, as the source file has them:
  U+201A, U+00FA, U+00D6.
\<close>

definition check_mark :: js_string where
  "check_mark = [0x201A, 0xFA, 0xD6]"

text \<open>
  \<open>error.response?.data?.message || error.message\<close>, inside the template literal.
\<close>

definition upload_error_text :: "js_error \<Rightarrow> js_string" where
  "upload_error_text e =
     (let server_message =
            (case error_response e of
               None \<Rightarrow> JUndefined
             | Some r \<Rightarrow> get_prop_opt (data r) (ascii ''message''))
      in ascii ''Error uploading file: ''
         @ toString (if truthy server_message then server_message else JStr (error_message e)))"

text \<open>
  \<open>setMessages([...messages, m])\<close> after the \<open>await\<close> writes the list captured
  when the handler was called, with \<open>m\<close> at its end.
\<close>

definition handleFileUpload_catch ::
    "message list \<Rightarrow> clock \<Rightarrow> js_error \<Rightarrow> app_state \<Rightarrow> app_state \<times> effect list" where
  "handleFileUpload_catch msgs c e s =
     (let errorMessage =
            \<lparr>id_msg = Date_now c, type_msg = Error, content = JStr (upload_error_text e),
             sources = None, timestamp = new_Date c\<rparr>
      in (s\<lparr>messages := msgs @ [errorMessage]\<rparr>, []))"

text \<open>
  In the success branch \<open>data\<close> is neither \<open>null\<close> nor \<open>undefined\<close> (the read of
  \<open>status\<close> did not throw), so the reads of \<open>filename\<close> and \<open>size\<close> cannot throw.
\<close>

definition handleFileUpload_try ::
    "message list \<Rightarrow> clock \<Rightarrow> outcome \<Rightarrow> app_state \<Rightarrow> app_state \<times> effect list" where
  "handleFileUpload_try msgs c out s =
     (case out of
        Rejected e \<Rightarrow> handleFileUpload_catch msgs c e s
      | Resolved r \<Rightarrow>
          (case get_prop (data r) (ascii ''status'') of
             Inl e \<Rightarrow> handleFileUpload_catch msgs c e s
           | Inr st \<Rightarrow>
               if st = success
               then
                 let successMessage =
                       \<lparr>id_msg = Date_now c, type_msg = Success,
                        content =
                          JStr (check_mark @ [32]
                            @ toString (get_prop_opt (data r) (ascii ''filename''))
                            @ ascii '' uploaded successfully (''
                            @ toString (get_prop_opt (data r) (ascii ''size''))
                            @ ascii '')''),
                        sources = None, timestamp = new_Date c\<rparr>
                 in loadDocuments (s\<lparr>messages := msgs @ [successMessage]\<rparr>)
               else (s, [])))"

definition handleFileUpload_resume ::
    "message list \<Rightarrow> clock \<Rightarrow> outcome \<Rightarrow> app_state \<Rightarrow> app_state \<times> effect list" where
  "handleFileUpload_resume msgs c out s =
     (case handleFileUpload_try msgs c out s of
        (s', effs) \<Rightarrow> (s'\<lparr>isLoading := False, uploadProgress := Finite 0\<rparr>, effs))"

subsection \<open>loadSampleData\<close>

definition sample_loaded_text :: js_string where
  "sample_loaded_text =
     check_mark @ ascii '' Sample documents loaded! Try asking about '' @ [34]
     @ ascii ''COVID relief'' @ [34, 44, 32, 34] @ ascii ''healthcare spending''
     @ [34, 44] @ ascii '' or '' @ [34] @ ascii ''education budget'' @ [34]"

definition loadSampleData :: "app_state \<Rightarrow> app_state \<times> effect list" where
  "loadSampleData s = (s, [Dispatch (Post (ascii ''/init'') NoBody) (LoadSampleData_k (messages s))])"

definition loadSampleData_resume ::
    "message list \<Rightarrow> clock \<Rightarrow> outcome \<Rightarrow> app_state \<Rightarrow> app_state \<times> effect list" where
  "loadSampleData_resume msgs c out s =
     (case out of
        Rejected e \<Rightarrow> (s, [ConsoleError (ascii ''Error loading sample data:'') e])
      | Resolved r \<Rightarrow>
          (case loadDocuments s of
             (s', effs) \<Rightarrow>
               let msg =
                     \<lparr>id_msg = Date_now c, type_msg = Success, content = JStr sample_loaded_text,
                      sources = None, timestamp = new_Date c\<rparr>
               in (s'\<lparr>messages := msgs @ [msg]\<rparr>, effs)))"

section \<open>What the chat page offers\<close>

text \<open>
  The parts of \<open>renderChat\<close> that decide which handler the user can reach: the status
  indicator, the empty state with its "Load Sample Data" button, the loading row, the
  \<open>disabled\<close> attribute of the file input, of the text input and of the submit button,
  and the progress bar.
\<close>

record chat_view =
  status_online :: bool
  load_sample_button :: bool
  thinking :: bool
  file_input_disabled :: bool
  text_input_disabled :: bool
  send_button_disabled :: bool
  progress_bar :: bool

fun js_between_0_100 :: "js_number \<Rightarrow> bool" where
  "js_between_0_100 (Finite n) = (0 < n \<and> n < 100)"
| "js_between_0_100 NaN = False"
| "js_between_0_100 Infinity = False"

definition renderChat :: "app_state \<Rightarrow> chat_view" where
  "renderChat s =
     \<lparr>status_online = (apiStatus s = Online),
      load_sample_button = (length (messages s) = 0),
      thinking = isLoading s,
      file_input_disabled = isLoading s,
      text_input_disabled = (isLoading s \<or> apiStatus s = Offline),
      send_button_disabled = (isLoading s \<or> trim (inputValue s) = [] \<or> apiStatus s = Offline),
      progress_bar = js_between_0_100 (uploadProgress s)\<rparr>"

section \<open>The component as a transition system\<close>

text \<open>
  A configuration is the state of the component, the requests in flight with the
  continuation each one resumes, and what was written to the console. An event is a user
  action on an element that is rendered and not disabled, a progress event of an upload
  in flight, or the settling of a request in flight. Every handler call sees the state of
  the latest render.
\<close>

record config =
  app :: app_state
  inflight :: "(request \<times> continuation) list"
  console :: "(js_string \<times> js_error) list"

datatype event =
    SetCurrentPage page
  | ChangeInput js_string
  | SubmitForm clock
  | ChangeFile "js_file option" "53 word"
  | ClickLoadSampleData
  | UploadProgress nat progress_event
  | Settle nat outcome clock

fun perform :: "effect list \<Rightarrow> config \<Rightarrow> config" where
  "perform [] cfg = cfg"
| "perform (Dispatch rq k # effs) cfg = perform effs (cfg\<lparr>inflight := inflight cfg @ [(rq, k)]\<rparr>)"
| "perform (ConsoleError m e # effs) cfg = perform effs (cfg\<lparr>console := console cfg @ [(m, e)]\<rparr>)"

definition call :: "(app_state \<Rightarrow> app_state \<times> effect list) \<Rightarrow> config \<Rightarrow> config" where
  "call h cfg = (case h (app cfg) of (s', effs) \<Rightarrow> perform effs (cfg\<lparr>app := s'\<rparr>))"

fun resume :: "continuation \<Rightarrow> clock \<Rightarrow> outcome \<Rightarrow> app_state \<Rightarrow> app_state \<times> effect list" where
  "resume CheckApiHealth_k c out = checkApiHealth_resume out"
| "resume LoadDocuments_k c out = loadDocuments_resume out"
| "resume HandleSendMessage_k c out = handleSendMessage_resume c out"
| "resume (HandleFileUpload_k msgs) c out = handleFileUpload_resume msgs c out"
| "resume (LoadSampleData_k msgs) c out = loadSampleData_resume msgs c out"

fun is_upload :: "continuation \<Rightarrow> bool" where
  "is_upload (HandleFileUpload_k msgs) = True"
| "is_upload k = False"

text \<open>
  The browser submits the form only through a submit button that is not disabled, and
  fires no change event on a disabled input.
\<close>

fun enabled :: "event \<Rightarrow> config \<Rightarrow> bool" where
  "enabled (SetCurrentPage p) cfg = True"
| "enabled (ChangeInput v) cfg =
     (currentPage (app cfg) = Chat \<and> \<not> text_input_disabled (renderChat (app cfg)))"
| "enabled (SubmitForm c) cfg =
     (currentPage (app cfg) = Chat \<and> \<not> send_button_disabled (renderChat (app cfg)))"
| "enabled (ChangeFile f year) cfg =
     (currentPage (app cfg) = Chat \<and> \<not> file_input_disabled (renderChat (app cfg)))"
| "enabled ClickLoadSampleData cfg =
     (currentPage (app cfg) = Chat \<and> load_sample_button (renderChat (app cfg)))"
| "enabled (UploadProgress i ev) cfg =
     (i < length (inflight cfg) \<and> is_upload (snd (inflight cfg ! i)))"
| "enabled (Settle i out c) cfg = (i < length (inflight cfg))"

fun fire :: "event \<Rightarrow> config \<Rightarrow> config" where
  "fire (SetCurrentPage p) cfg = cfg\<lparr>app := (app cfg)\<lparr>currentPage := p\<rparr>\<rparr>"
| "fire (ChangeInput v) cfg = cfg\<lparr>app := (app cfg)\<lparr>inputValue := v\<rparr>\<rparr>"
| "fire (SubmitForm c) cfg = call (handleSendMessage c) cfg"
| "fire (ChangeFile f year) cfg = call (handleFileUpload f year) cfg"
| "fire ClickLoadSampleData cfg = call loadSampleData cfg"
| "fire (UploadProgress i ev) cfg = cfg\<lparr>app := onUploadProgress ev (app cfg)\<rparr>"
| "fire (Settle i out c) cfg =
     call (resume (snd (inflight cfg ! i)) c out)
       (cfg\<lparr>inflight := take i (inflight cfg) @ drop (Suc i) (inflight cfg)\<rparr>)"

definition step :: "event \<Rightarrow> config \<Rightarrow> config option" where
  "step ev cfg = (if enabled ev cfg then Some (fire ev cfg) else None)"

fun run :: "event list \<Rightarrow> config \<Rightarrow> config option" where
  "run [] cfg = Some cfg"
| "run (ev # evs) cfg = (case step ev cfg of None \<Rightarrow> None | Some cfg' \<Rightarrow> run evs cfg')"

text \<open>The mount effect calls \<open>checkApiHealth\<close> and \<open>loadDocuments\<close>.\<close>

definition mounted :: config where
  "mounted =
     call loadDocuments
       (call checkApiHealth \<lparr>app = initial_state, inflight = [], console = []\<rparr>)"

section \<open>Notions used by the statements\<close>

text \<open>The comparison \<open>a <= b\<close> of JavaScript on the numbers \<open>uploadProgress\<close> can hold.\<close>

fun js_le :: "js_number \<Rightarrow> js_number \<Rightarrow> bool" where
  "js_le (Finite a) (Finite b) = (a \<le> b)"
| "js_le (Finite a) Infinity = True"
| "js_le Infinity Infinity = True"
| "js_le x y = False"

text \<open>
  The values \<open>uploadProgress\<close> takes, one after each progress event of a transfer.
\<close>

fun progress_readings :: "app_state \<Rightarrow> progress_event list \<Rightarrow> js_number list" where
  "progress_readings s [] = []"
| "progress_readings s (ev # evs) =
     uploadProgress (onUploadProgress ev s) # progress_readings (onUploadProgress ev s) evs"

text \<open>Clock readings, responses and a file for the scenarios below.\<close>

definition at_1000 :: clock where
  "at_1000 = \<lparr>Date_now = 1000, new_Date = 1000\<rparr>"

definition at_1001 :: clock where
  "at_1001 = \<lparr>Date_now = 1001, new_Date = 1001\<rparr>"

definition network_error :: outcome where
  "network_error = Rejected (AxiosError (ascii ''Network Error'') None)"

definition health_ok :: outcome where
  "health_ok = Resolved \<lparr>data = JObj [(ascii ''status'', success)]\<rparr>"

definition documents_ok :: outcome where
  "documents_ok =
     Resolved \<lparr>data = JObj [(ascii ''status'', success), (ascii ''documents'', JArr [])]\<rparr>"

definition chat_ok :: outcome where
  "chat_ok =
     Resolved \<lparr>data = JObj [(ascii ''answer'', JStr (ascii ''X amount'')),
                            (ascii ''sources'', JArr [])]\<rparr>"

definition init_ok :: outcome where
  "init_ok = Resolved \<lparr>data = JObj [(ascii ''status'', success)]\<rparr>"

definition status_error :: outcome where
  "status_error = Resolved \<lparr>data = JObj [(ascii ''status'', JStr (ascii ''error''))]\<rparr>"

definition upload_refused :: outcome where
  "upload_refused =
     Resolved \<lparr>data = JObj [(ascii ''status'', JStr (ascii ''error'')),
                            (ascii ''message'', JStr (ascii ''Unsupported file type''))]\<rparr>"

definition upload_ok :: outcome where
  "upload_ok =
     Resolved \<lparr>data = JObj [(ascii ''status'', success),
                            (ascii ''filename'', JStr (ascii ''report.pdf'')),
                            (ascii ''size'', JNum 2048)]\<rparr>"

definition report_pdf :: js_file where
  "report_pdf = \<lparr>file_name = ascii ''report.pdf'', file_size = 2048\<rparr>"

definition sent_250_of_1000 :: progress_event where
  "sent_250_of_1000 = \<lparr>loaded = 250, total = Some 1000\<rparr>"

definition sent_500_of_1000 :: progress_event where
  "sent_500_of_1000 = \<lparr>loaded = 500, total = Some 1000\<rparr>"

definition sent_505_of_1000 :: progress_event where
  "sent_505_of_1000 = \<lparr>loaded = 505, total = Some 1000\<rparr>"

definition sent_1000_of_1000 :: progress_event where
  "sent_1000_of_1000 = \<lparr>loaded = 1000, total = Some 1000\<rparr>"

definition sent_101_of_200_terabytes :: progress_event where
  "sent_101_of_200_terabytes =
     \<lparr>loaded = 101000000000051, total = Some 200000000000101\<rparr>"

section \<open>Auxiliary facts\<close>

lemmas handler_defs =
  checkApiHealth_def checkApiHealth_catch_def checkApiHealth_resume_def
  loadDocuments_def loadDocuments_catch_def loadDocuments_resume_def
  handleSendMessage_def handleSendMessage_catch_def handleSendMessage_try_def
  handleSendMessage_resume_def
  handleFileUpload_def handleFileUpload_catch_def handleFileUpload_try_def
  handleFileUpload_resume_def loadSampleData_def loadSampleData_resume_def
  onUploadProgress_def upload_error_text_def get_prop_opt_def

lemmas system_defs = step_def call_def renderChat_def mounted_def initial_state_def

lemmas text_defs = ascii_def trim_def isWhiteSpace_def success_def

lemmas scenario_defs =
  at_1000_def at_1001_def network_error_def health_ok_def documents_ok_def chat_ok_def
  init_ok_def status_error_def upload_refused_def upload_ok_def report_pdf_def

lemma get_prop_Inr:
  "v \<noteq> JNull \<Longrightarrow> v \<noteq> JUndefined \<Longrightarrow> get_prop v p = Inr (get_prop_opt v p)"
  by (cases v) (simp_all add: get_prop_opt_def)

subsection \<open>Rounding to a double\<close>

lemma binade_bounds:
  "0 < x \<Longrightarrow> 2 powi binade x \<le> x \<and> x < 2 powi (binade x + 1)"
proof (induction x rule: binade.induct)
  case (1 x)
  show ?case
  proof (cases "2 \<le> x")
    case True
    then have b: "binade x = binade (x / 2) + 1"
      using "1.prems" by (simp add: binade.simps)
    have "2 powi binade (x / 2) \<le> x / 2 \<and> x / 2 < 2 powi (binade (x / 2) + 1)"
      using "1.IH"(1) "1.prems" True by simp
    then show ?thesis unfolding b by (simp add: power_int_add field_simps)
  next
    case False
    show ?thesis
    proof (cases "x < 1")
      case True
      then have b: "binade x = binade (x * 2) - 1"
        using "1.prems" False by (simp add: binade.simps)
      have "2 powi binade (x * 2) \<le> x * 2 \<and> x * 2 < 2 powi (binade (x * 2) + 1)"
        using "1.IH"(2) "1.prems" True False by simp
      then show ?thesis unfolding b by (simp add: power_int_add power_int_diff field_simps)
    next
      case False
      with \<open>\<not> 2 \<le> x\<close> "1.prems" have "binade x = 0" by (simp add: binade.simps)
      then show ?thesis using False \<open>\<not> 2 \<le> x\<close> by simp
    qed
  qed
qed

lemma binade_less:
  assumes "0 < x" "x < 2 powi k"
  shows "binade x < k"
proof -
  have lt: "(2::rat) powi binade x < 2 powi k"
    using binade_bounds [OF assms(1)] assms(2) by linarith
  show ?thesis
  proof (rule ccontr)
    assume "\<not> binade x < k"
    then have "(2::rat) powi k \<le> 2 powi binade x"
      by (intro power_int_increasing) simp_all
    with lt show False by simp
  qed
qed

lemma binade_ge:
  assumes "0 < x" "2 powi k \<le> x"
  shows "k \<le> binade x"
proof -
  have lt: "(2::rat) powi k < 2 powi (binade x + 1)"
    using binade_bounds [OF assms(1)] assms(2) by linarith
  show ?thesis
  proof (rule ccontr)
    assume "\<not> k \<le> binade x"
    then have "(2::rat) powi (binade x + 1) \<le> 2 powi k"
      by (intro power_int_increasing) simp_all
    with lt show False by simp
  qed
qed

lemma round_even_bounds:
  "q - 1 / 2 \<le> of_int (round_even q) \<and> of_int (round_even q) \<le> q + 1 / 2"
proof -
  define f where "f = \<lfloor>q\<rfloor>"
  have f: "of_int f \<le> q" "q < of_int f + 1"
    unfolding f_def by linarith+
  have "round_even q =
      (if q - of_int f < 1 / 2 then f
       else if 1 / 2 < q - of_int f then f + 1 else if even f then f else f + 1)"
    by (simp add: round_even_def Let_def f_def)
  then consider "round_even q = f" "q - of_int f \<le> 1 / 2"
    | "round_even q = f + 1" "1 / 2 \<le> q - of_int f"
    by (auto split: if_splits)
  then show ?thesis
  proof cases
    case 1
    then show ?thesis using f by simp
  next
    case 2
    then show ?thesis using f by simp
  qed
qed

lemma round_even_int: "round_even (of_int n) = n"
  by (simp add: round_even_def)

lemma round_even_mono:
  assumes "q \<le> q'"
  shows "round_even q \<le> round_even q'"
proof (rule ccontr)
  assume "\<not> round_even q \<le> round_even q'"
  then have "round_even q' + 1 \<le> round_even q" by simp
  then have "(of_int (round_even q') :: rat) + 1 \<le> of_int (round_even q)"
    by (metis of_int_1 of_int_add of_int_le_iff)
  moreover have "of_int (round_even q) \<le> q + 1 / 2" "q' - 1 / 2 \<le> of_int (round_even q')"
    using round_even_bounds by blast+
  ultimately have "q' \<le> q" by linarith
  with assms have "q = q'" by simp
  with \<open>\<not> round_even q \<le> round_even q'\<close> show False by simp
qed

lemma to_double_zero: "to_double 0 = 0"
  by (simp add: to_double_def)

lemma to_double_pos:
  "0 < x \<Longrightarrow>
   to_double x = of_int (round_even (x / 2 powi (binade x - 52))) * 2 powi (binade x - 52)"
  by (simp add: to_double_def Let_def)

lemma ulp_le:
  assumes "0 < x"
  shows "2 powi (binade x - 52) \<le> x / 2 ^ 52"
proof -
  have "(2::rat) powi (binade x - 52) = 2 powi binade x / 2 ^ 52"
    by (simp add: power_int_diff)
  then show ?thesis using binade_bounds [OF assms] by (simp add: divide_right_mono)
qed

text \<open>The relative error of rounding is at most \<open>2 ^ - 53\<close>.\<close>

lemma to_double_error:
  assumes "0 < x"
  shows "\<bar>to_double x - x\<bar> \<le> x / 2 ^ 53"
proof -
  define u :: rat where "u = 2 powi (binade x - 52)"
  have u: "0 < u" by (simp add: u_def)
  define n where "n = round_even (x / u)"
  have "\<bar>of_int n - x / u\<bar> \<le> 1 / 2"
    using round_even_bounds [of "x / u"] unfolding n_def by linarith
  then have "\<bar>of_int n - x / u\<bar> * u \<le> 1 / 2 * u"
    using u by (intro mult_right_mono) simp_all
  moreover have "\<bar>of_int n - x / u\<bar> * u = \<bar>of_int n * u - x\<bar>"
  proof -
    have "\<bar>of_int n - x / u\<bar> * u = \<bar>(of_int n - x / u) * u\<bar>"
      using u by (simp add: abs_mult)
    also have "(of_int n - x / u) * u = of_int n * u - x"
      using u by (simp add: field_simps)
    finally show ?thesis .
  qed
  ultimately have "\<bar>of_int n * u - x\<bar> \<le> u / 2" by simp
  moreover have "u / 2 \<le> x / 2 ^ 53"
    using ulp_le [OF assms] unfolding u_def by simp
  moreover have "to_double x = of_int n * u"
    using assms by (simp add: to_double_pos n_def u_def)
  ultimately show ?thesis by simp
qed

text \<open>A number with a significand of at most 53 bits is a double.\<close>

lemma to_double_exact:
  assumes "0 < m" "m < 2 ^ 53"
  shows "to_double (of_int m * 2 powi j) = of_int m * 2 powi j"
proof -
  define x :: rat where "x = of_int m * 2 powi j"
  have x: "0 < x" using assms(1) by (simp add: x_def)
  have "x < 2 ^ 53 * 2 powi j"
    unfolding x_def using assms(2)
    by (intro mult_strict_right_mono)
      (simp_all add: of_int_less_iff [of m "2 ^ 53", where ?'a = rat, simplified])
  also have "\<dots> = 2 powi (53 + j)" by (simp add: power_int_add)
  finally have "binade x < 53 + j" using x by (intro binade_less) simp_all
  then have k: "0 \<le> j - (binade x - 52)" by simp
  define k where "k = nat (j - (binade x - 52))"
  have "x / 2 powi (binade x - 52) = of_int m * 2 powi (j - (binade x - 52))"
    by (simp add: x_def power_int_diff)
  also have "(2::rat) powi (j - (binade x - 52)) = 2 ^ k"
    using k by (simp add: k_def power_int_def)
  also have "of_int m * (2::rat) ^ k = of_int (m * 2 ^ k)" by simp
  finally have "round_even (x / 2 powi (binade x - 52)) = m * 2 ^ k"
    by (simp only: round_even_int)
  then have "to_double x = of_int (m * 2 ^ k) * 2 powi (binade x - 52)"
    using x by (simp add: to_double_pos)
  also have "\<dots> = of_int m * (2 powi (j - (binade x - 52)) * 2 powi (binade x - 52))"
    using k by (simp add: k_def power_int_def)
  also have "\<dots> = x" by (simp add: x_def power_int_diff)
  finally show ?thesis by (simp add: x_def)
qed

lemma to_double_of_nat:
  assumes "n < 2 ^ 53"
  shows "to_double (of_nat n) = of_nat n"
proof (cases "n = 0")
  case True
  then show ?thesis by (simp add: to_double_def)
next
  case False
  then have "0 < int n" "int n < 2 ^ 53" using assms by simp_all
  from to_double_exact [OF this, of 0] show ?thesis by simp
qed

lemma to_double_half:
  assumes "0 < m" "m < 2 ^ 53"
  shows "to_double (of_int m / 2) = of_int m / 2"
  using to_double_exact [OF assms, of "- 1"] by (simp add: power_int_minus field_simps)

lemma to_double_range:
  assumes "0 < x"
  shows "2 powi binade x \<le> to_double x \<and> to_double x \<le> 2 powi (binade x + 1)"
proof -
  define u :: rat where "u = 2 powi (binade x - 52)"
  have u: "0 < u" by (simp add: u_def)
  define n where "n = round_even (x / u)"
  have lo: "2 ^ 52 * u = 2 powi binade x" by (simp add: u_def power_int_diff)
  have hi: "2 ^ 53 * u = 2 powi (binade x + 1)"
    by (simp add: u_def power_int_diff power_int_add)
  have "2 ^ 52 * u \<le> x" "x \<le> 2 ^ 53 * u"
    using binade_bounds [OF assms] unfolding lo hi by simp_all
  then have q: "of_int (2 ^ 52) \<le> x / u" "x / u \<le> of_int (2 ^ 53)"
    using u by (simp_all add: field_simps)
  have "round_even (of_int (2 ^ 52)) \<le> n" "n \<le> round_even (of_int (2 ^ 53))"
    unfolding n_def by (rule round_even_mono [OF q(1)], rule round_even_mono [OF q(2)])
  then have "2 ^ 52 \<le> n" "n \<le> 2 ^ 53"
    by (simp_all only: round_even_int)
  then have "(of_int (2 ^ 52) :: rat) \<le> of_int n" "(of_int n :: rat) \<le> of_int (2 ^ 53)"
    by (simp_all only: of_int_le_iff)
  then have "2 ^ 52 * u \<le> of_int n * u" "of_int n * u \<le> 2 ^ 53 * u"
    using u by (simp_all add: mult_right_mono)
  moreover have "to_double x = of_int n * u"
    using assms by (simp add: to_double_pos n_def u_def)
  ultimately show ?thesis unfolding lo hi by simp
qed

lemma to_double_pos_pos:
  assumes "0 < x"
  shows "0 < to_double x"
proof -
  have "(0::rat) < 2 powi binade x" by simp
  then show ?thesis using to_double_range [OF assms] by linarith
qed

text \<open>Rounding keeps the order.\<close>

lemma to_double_mono:
  assumes "0 \<le> x" "x \<le> y"
  shows "to_double x \<le> to_double y"
proof (cases "x = 0")
  case True
  show ?thesis
  proof (cases "y = 0")
    case True
    with \<open>x = 0\<close> show ?thesis by simp
  next
    case False
    with assms True have "0 < y" by simp
    then show ?thesis using to_double_pos_pos [of y] True by (simp add: to_double_zero)
  qed
next
  case False
  then have x: "0 < x" and y: "0 < y" using assms by simp_all
  have "binade x \<le> binade y"
    using binade_ge [OF y, of "binade x"] binade_bounds [OF x] assms(2) by simp
  then consider "binade x = binade y" | "binade x + 1 \<le> binade y" by linarith
  then show ?thesis
  proof cases
    case 1
    define u :: rat where "u = 2 powi (binade y - 52)"
    have u: "0 < u" by (simp add: u_def)
    have "x / u \<le> y / u" using assms(2) u by (simp add: divide_right_mono)
    then have "round_even (x / u) \<le> round_even (y / u)" by (rule round_even_mono)
    then have "(of_int (round_even (x / u)) :: rat) * u \<le> of_int (round_even (y / u)) * u"
      using u by (simp add: mult_right_mono)
    then show ?thesis using x y 1 by (simp add: to_double_pos u_def)
  next
    case 2
    have "to_double x \<le> 2 powi (binade x + 1)" using to_double_range [OF x] by simp
    also have "\<dots> \<le> 2 powi binade y" using 2 by (simp add: power_int_increasing)
    also have "\<dots> \<le> to_double y" using to_double_range [OF y] by simp
    finally show ?thesis .
  qed
qed

lemma to_number_exact: "n < 2 ^ 53 \<Longrightarrow> to_number n = of_nat n"
  by (simp add: to_number_def to_double_of_nat)

lemma to_number_pos: "0 < n \<Longrightarrow> 0 < to_number n"
  by (simp add: to_number_def to_double_pos_pos)

lemma to_number_mono: "m \<le> n \<Longrightarrow> to_number m \<le> to_number n"
  unfolding to_number_def by (intro to_double_mono) simp_all

text \<open>
  For a numerator below \<open>2 ^ 52\<close> the double quotient rounds to the same integer as the
  exact one: the exact quotient is at least \<open>1 / (2 * t)\<close> away from the next tie above,
  and either on a tie below or that far away from it, while rounding moves it by less.
\<close>

lemma round_div_exact:
  fixes a t :: nat
  assumes a: "a < 2 ^ 52" and t: "0 < t"
  shows "Math_round (to_double (of_nat a / of_nat t)) = round (of_nat a / of_nat t :: rat)"
proof (cases "a = 0")
  case True
  then show ?thesis by (simp add: to_double_zero Math_round_def round_def)
next
  case False
  define x :: rat where "x = of_nat a / of_nat t"
  define k where "k = round x"
  define d where "d = to_double x"
  define h :: rat where "h = 1 / (2 * of_nat t)"
  have x: "0 < x" using False t by (simp add: x_def)
  have tr: "(0::rat) < of_nat t" using t by simp
  have xt: "x * of_nat t = of_nat a" using t by (simp add: x_def)
  have k: "of_int k \<le> x + 1 / 2" "x + 1 / 2 < of_int k + 1"
    unfolding k_def round_def by linarith+
  have err: "\<bar>d - x\<bar> < h"
  proof -
    have "\<bar>d - x\<bar> \<le> x / 2 ^ 53" unfolding d_def by (rule to_double_error [OF x])
    also have "\<dots> = of_nat a / (of_nat t * 2 ^ 53)" by (simp add: x_def)
    also have "\<dots> < 2 ^ 52 / (of_nat t * 2 ^ 53)"
    proof -
      have "(of_nat a :: rat) < 2 ^ 52"
        using a of_nat_less_iff [of a "2 ^ 52", where ?'a = rat] by simp
      moreover have "(0::rat) < of_nat t * 2 ^ 53" using tr by simp
      ultimately show ?thesis by (rule divide_strict_right_mono)
    qed
    also have "\<dots> = h" by (simp add: h_def)
    finally show ?thesis .
  qed
  have upper: "x + h \<le> of_int k + 1 / 2"
  proof -
    have "(2 * x + 1) * of_nat t < (2 * of_int k + 2) * of_nat t"
      using k(2) tr by (intro mult_strict_right_mono) simp_all
    then have "(of_int (2 * int a + int t) :: rat) < of_int ((2 * k + 2) * int t)"
      using xt by (simp add: algebra_simps)
    then have "2 * int a + int t < (2 * k + 2) * int t" by (simp only: of_int_less_iff)
    then have "2 * int a + int t + 1 \<le> (2 * k + 2) * int t" by simp
    then have "(of_int (2 * int a + int t + 1) :: rat) \<le> of_int ((2 * k + 2) * int t)"
      by (simp only: of_int_le_iff)
    then have "2 * (x * of_nat t) + of_nat t + 1 \<le> (2 * of_int k + 2) * of_nat t"
      unfolding xt by simp
    then have "(2 * x + 1 + 1 / of_nat t) * of_nat t \<le> (2 * of_int k + 2) * of_nat t"
      using tr by (simp add: algebra_simps)
    then have "2 * x + 1 + 1 / of_nat t \<le> 2 * of_int k + 2"
      using tr by (simp only: mult_le_cancel_right_pos)
    then show ?thesis by (simp add: h_def field_simps)
  qed
  have lower: "of_int k - 1 / 2 \<le> d"
  proof (cases "2 * int a = (2 * k - 1) * int t")
    case True
    then have "(of_int (2 * int a) :: rat) = of_int ((2 * k - 1) * int t)" by simp
    then have "2 * (x * of_nat t) = (2 * of_int k - 1) * of_nat t" unfolding xt by simp
    then have "(2 * x) * of_nat t = (2 * of_int k - 1) * of_nat t" by (simp add: algebra_simps)
    then have "2 * x = 2 * of_int k - 1" using tr by (simp only: mult_cancel_right) simp
    then have xk: "x = of_int (2 * k - 1) / 2" by simp
    have "0 < 2 * k - 1" using x xk by (simp add: field_simps)
    moreover have "2 * k - 1 < 2 ^ 53"
    proof -
      have "of_nat a \<le> (of_nat a :: rat) * of_nat t" using t by (simp add: mult_le_cancel_left1)
      then have "x \<le> of_nat a" using tr by (simp add: x_def field_simps)
      also have "(of_nat a :: rat) < of_nat (2 ^ 52)" using a by (simp only: of_nat_less_iff)
      finally have "of_int (2 * k - 1) / 2 < (2 ^ 52 :: rat)" unfolding xk by simp
      then have "(of_int (2 * k - 1) :: rat) < of_int (2 ^ 53)" by simp
      then show ?thesis by (simp only: of_int_less_iff)
    qed
    ultimately have "d = x" unfolding d_def xk by (rule to_double_half)
    then show ?thesis using xk by simp
  next
    case False
    have "(2 * of_int k - 1) * of_nat t \<le> (2 * x) * of_nat t"
      using k(1) tr by (intro mult_right_mono) simp_all
    then have "(of_int ((2 * k - 1) * int t) :: rat) \<le> of_int (2 * int a)"
      using xt by (simp add: algebra_simps)
    then have "(2 * k - 1) * int t \<le> 2 * int a" by (simp only: of_int_le_iff)
    with False have "(2 * k - 1) * int t + 1 \<le> 2 * int a" by simp
    then have "(of_int ((2 * k - 1) * int t + 1) :: rat) \<le> of_int (2 * int a)"
      by (simp only: of_int_le_iff)
    then have "(2 * of_int k - 1) * of_nat t + 1 \<le> 2 * (x * of_nat t)"
      unfolding xt by simp
    then have "(2 * of_int k - 1 + 1 / of_nat t) * of_nat t \<le> (2 * x) * of_nat t"
      using tr by (simp add: algebra_simps)
    then have "2 * of_int k - 1 + 1 / of_nat t \<le> 2 * x"
      using tr by (simp only: mult_le_cancel_right_pos)
    then have "of_int k - 1 / 2 \<le> x - h" by (simp add: h_def field_simps)
    then show ?thesis using err by linarith
  qed
  have "of_int k \<le> d + 1 / 2" "d + 1 / 2 < of_int k + 1"
    using lower upper err by linarith+
  then have "\<lfloor>d + 1 / 2\<rfloor> = k" by (intro floor_unique)
  then show ?thesis by (simp add: Math_round_def d_def k_def x_def)
qed

subsection \<open>The percentage of a progress event\<close>

lemma floor_numeral_div:
  "\<lfloor>(numeral a :: rat) / numeral b\<rfloor> = numeral a div numeral b"
  using floor_divide_of_int_eq [of "numeral a" "numeral b", where ?'a = rat] by simp

lemmas double_defs =
  to_number_def to_double_def binade.simps round_even_def Let_def floor_numeral_div
  Math_round_def

lemma Math_round_mono: "x \<le> y \<Longrightarrow> Math_round x \<le> Math_round y"
  by (simp add: Math_round_def floor_mono)

lemma readings_map: "progress_readings s evs = map percentComplete evs"
  by (induction evs arbitrary: s) (simp_all add: onUploadProgress_def)

lemma percent_finite:
  assumes "0 < unat t" "total ev = Some t"
  shows "percentComplete ev =
     Finite (Math_round (to_double (to_double (to_number (unat (loaded ev)) * 100)
       / to_number (unat t))))"
  using assms to_number_pos [of "unat t"] by (simp add: percentComplete_def Let_def)

lemma percent_exact:
  assumes t: "0 < unat t" "unat t < 2 ^ 53" and ev: "total ev = Some t"
    and l: "unat (loaded ev) * 100 < 2 ^ 52"
  shows "percentComplete ev =
     Finite (round (of_nat (unat (loaded ev)) / of_nat (unat t) * 100 :: rat))"
proof -
  define a where "a = unat (loaded ev)"
  have a: "a * 100 < 2 ^ 52" using l by (simp add: a_def)
  then have "a < 2 ^ 53" by simp
  then have "to_number a = of_nat a" by (rule to_number_exact)
  moreover have "to_double (of_nat (a * 100)) = of_nat (a * 100)"
    using a by (intro to_double_of_nat) simp
  ultimately have p: "to_double (to_number a * 100) = of_nat (a * 100)" by simp
  have d: "to_number (unat t) = of_nat (unat t)" using t(2) by (rule to_number_exact)
  have "percentComplete ev =
      Finite (Math_round (to_double (of_nat (a * 100) / of_nat (unat t))))"
    using percent_finite [OF t(1) ev] p d by (simp add: a_def)
  also have "\<dots> = Finite (round (of_nat (a * 100) / of_nat (unat t) :: rat))"
    using round_div_exact [OF a t(1)] by simp
  also have "(of_nat (a * 100) / of_nat (unat t) :: rat) = of_nat a / of_nat (unat t) * 100"
    by simp
  finally show ?thesis by (simp add: a_def)
qed

lemma percent_mono:
  assumes "0 < unat t" "total a = Some t" "total b = Some t"
    and "unat (loaded a) \<le> unat (loaded b)"
  shows "js_le (percentComplete a) (percentComplete b)"
proof -
  define d where "d = to_number (unat t)"
  define pa where "pa = to_double (to_number (unat (loaded a)) * 100)"
  define pb where "pb = to_double (to_number (unat (loaded b)) * 100)"
  have d: "0 < d" unfolding d_def using assms(1) by (rule to_number_pos)
  have n0: "0 \<le> to_number (unat (loaded a))"
    using to_number_mono [of 0 "unat (loaded a)"] by (simp add: to_number_def to_double_zero)
  have "to_number (unat (loaded a)) * 100 \<le> to_number (unat (loaded b)) * 100"
    using to_number_mono [OF assms(4)] by simp
  moreover have "0 \<le> to_number (unat (loaded a)) * 100" using n0 by simp
  ultimately have p: "pa \<le> pb" unfolding pa_def pb_def by (intro to_double_mono)
  have "0 \<le> pa"
    unfolding pa_def using to_double_mono [of 0 "to_number (unat (loaded a)) * 100"] n0
    by (simp add: to_double_zero)
  then have "0 \<le> pa / d" using d by simp
  moreover have "pa / d \<le> pb / d" using p d by (simp add: divide_right_mono)
  ultimately have "to_double (pa / d) \<le> to_double (pb / d)" by (rule to_double_mono)
  then have "Math_round (to_double (pa / d)) \<le> Math_round (to_double (pb / d))"
    by (rule Math_round_mono)
  then show ?thesis
    using percent_finite [OF assms(1,2)] percent_finite [OF assms(1,3)]
    by (simp add: pa_def pb_def d_def)
qed

text \<open>
  An event that reports every byte sent reads 100, whatever the size: the two roundings
  move the quotient by less than a quarter.
\<close>

lemma percent_full:
  assumes "0 < unat t" "total ev = Some t" "loaded ev = t"
  shows "percentComplete ev = Finite 100"
proof -
  define T where "T = to_number (unat t)"
  define P where "P = to_double (T * 100)"
  define Q where "Q = P / T"
  define D where "D = to_double Q"
  have T: "0 < T" unfolding T_def using assms(1) by (rule to_number_pos)
  then have "0 < T * 100" by simp
  then have e: "\<bar>P - T * 100\<bar> \<le> T * 100 / 2 ^ 53"
    unfolding P_def by (rule to_double_error)
  have T0: "0 \<le> T" using T by simp
  have "\<bar>P - T * 100\<bar> / T \<le> (T * 100 / 2 ^ 53) / T"
    by (rule divide_right_mono [OF e T0])
  moreover have "\<bar>P - T * 100\<bar> / T = \<bar>Q - 100\<bar>"
  proof -
    have "\<bar>P - T * 100\<bar> / T = \<bar>(P - T * 100) / T\<bar>" using T by simp
    also have "(P - T * 100) / T = Q - 100" using T by (simp add: Q_def field_simps)
    finally show ?thesis .
  qed
  moreover have "(T * 100 / 2 ^ 53) / T = 100 / 2 ^ 53" using T by simp
  ultimately have q: "\<bar>Q - 100\<bar> \<le> 100 / 2 ^ 53" by simp
  then have q8: "\<bar>Q - 100\<bar> \<le> 1 / 8" by simp
  then have Qpos: "0 < Q" and Q101: "Q \<le> 101" by linarith+
  have "\<bar>D - Q\<bar> \<le> Q / 2 ^ 53" unfolding D_def using Qpos by (rule to_double_error)
  also have "\<dots> \<le> 101 / 2 ^ 53" using Q101 by (simp add: divide_right_mono)
  also have "\<dots> \<le> 1 / 8" by simp
  finally have "\<bar>D - Q\<bar> \<le> 1 / 8" .
  with q8 have "of_int 100 \<le> D + 1 / 2" "D + 1 / 2 < of_int 100 + 1" by linarith+
  then have "\<lfloor>D + 1 / 2\<rfloor> = 100" by (intro floor_unique)
  then show ?thesis
    using percent_finite [OF assms(1,2)] assms(3)
    by (simp add: Math_round_def D_def Q_def P_def T_def)
qed

text \<open>Without a total the reading is \<open>NaN\<close>, which compares with nothing.\<close>

lemma percent_unknown_total:
  "total ev = None \<Longrightarrow> percentComplete ev = NaN \<and> \<not> js_le NaN x \<and> \<not> js_le x NaN"
  by (cases x) (simp_all add: percentComplete_def)

text \<open>The readings of the events used in the scenarios.\<close>

lemma percent_250: "percentComplete sent_250_of_1000 = Finite 25"
  unfolding percentComplete_def sent_250_of_1000_def
  by (simp add: Let_def) (simp add: double_defs)

lemma percent_500: "percentComplete sent_500_of_1000 = Finite 50"
  unfolding percentComplete_def sent_500_of_1000_def
  by (simp add: Let_def) (simp add: double_defs)

lemma percent_505: "percentComplete sent_505_of_1000 = Finite 51"
  unfolding percentComplete_def sent_505_of_1000_def
  by (simp add: Let_def) (simp add: double_defs)

lemma percent_1000: "percentComplete sent_1000_of_1000 = Finite 100"
  unfolding percentComplete_def sent_1000_of_1000_def
  by (simp add: Let_def) (simp add: double_defs)

lemma percent_terabytes: "percentComplete sent_101_of_200_terabytes = Finite 51"
  unfolding percentComplete_def sent_101_of_200_terabytes_def
  by (simp add: Let_def) (simp add: double_defs)

section \<open>Chat: sending a query\<close>

text \<open>
  Against claim C1 as it is worded. A chat request that resolves with the failure marker
  \<open>error\<close> and no answer, a failure by the description of the send, appends an
  assistant entry. A chat request that resolves with the body \<open>null\<close>, a success if
  success is the promise resolving, appends an error entry.
\<close>

theorem failure_marker_gets_assistant_entry:
  "map type_msg (messages (fst (resume HandleSendMessage_k at_1001 status_error initial_state)))
     = [Assistant]
   \<and> map type_msg
       (messages (fst (resume HandleSendMessage_k at_1001 (Resolved \<lparr>data = JNull\<rparr>)
          initial_state)))
     = [Error]"
  by (simp add: handler_defs initial_state_def text_defs scenario_defs)

text \<open>
  Claim C1, amended. A send whose input is not blank after trimming appends exactly one
  user entry at once (the list becomes the old one with that entry at its end), clears
  the input, raises the loading flag and dispatches one request. When that request
  settles, whatever the state is by then, exactly one entry is appended to the list of
  that moment, never two and never none. It is an assistant entry when the promise
  resolves with a body other than \<open>null\<close> and \<open>undefined\<close>, whatever marker the body
  carries, and an error entry when the promise rejects or the body is \<open>null\<close> or
  \<open>undefined\<close>.
\<close>

theorem send_appends_user_then_entry_by_try_outcome:
  assumes "trim (inputValue s) \<noteq> []"
  shows "handleSendMessage c s =
           (s\<lparr>messages := messages s @
                 [\<lparr>id_msg = Date_now c, type_msg = User, content = JStr (inputValue s),
                   sources = None, timestamp = new_Date c\<rparr>],
               inputValue := [], isLoading := True\<rparr>,
            [Dispatch
               (Post (ascii ''/chat'') (JsonBody (JObj [(ascii ''query'', JStr (inputValue s))])))
               HandleSendMessage_k])
       \<and> (\<exists>e. resume HandleSendMessage_k c' out s' =
                 (s'\<lparr>messages := messages s' @ [e], isLoading := False\<rparr>, [])
              \<and> type_msg e =
                  (case out of
                     Rejected err \<Rightarrow> Error
                   | Resolved r \<Rightarrow>
                       if data r = JNull \<or> data r = JUndefined then Error else Assistant))"
proof -
  let ?kind = "case out of
                 Rejected err \<Rightarrow> Error
               | Resolved r \<Rightarrow>
                   if data r = JNull \<or> data r = JUndefined then Error else Assistant"
  let ?err = "\<lparr>id_msg = Date_now c' + 1, type_msg = Error, content = JStr connect_error_text,
               sources = None, timestamp = new_Date c'\<rparr>"
  have catch: "handleSendMessage_catch c' s' = s'\<lparr>messages := messages s' @ [?err]\<rparr>"
    by (simp add: handleSendMessage_catch_def)
  have "\<exists>e. handleSendMessage_try c' out s' = s'\<lparr>messages := messages s' @ [e]\<rparr>
          \<and> type_msg e = ?kind"
  proof (cases out)
    case (Rejected err)
    then have "handleSendMessage_try c' out s' = s'\<lparr>messages := messages s' @ [?err]\<rparr>"
      using catch by (simp add: handleSendMessage_try_def)
    then show ?thesis using Rejected by (intro exI [of _ ?err]) simp
  next
    case (Resolved r)
    show ?thesis
    proof (cases "data r = JNull \<or> data r = JUndefined")
      case True
      then have "handleSendMessage_try c' out s' = s'\<lparr>messages := messages s' @ [?err]\<rparr>"
        using Resolved catch by (auto simp add: handleSendMessage_try_def)
      then show ?thesis using Resolved True by (intro exI [of _ ?err]) simp
    next
      case False
      let ?ai = "\<lparr>id_msg = Date_now c' + 1, type_msg = Assistant,
                  content = get_prop_opt (data r) (ascii ''answer''),
                  sources = Some (get_prop_opt (data r) (ascii ''sources'')),
                  timestamp = new_Date c'\<rparr>"
      have "handleSendMessage_try c' out s' = s'\<lparr>messages := messages s' @ [?ai]\<rparr>"
        using Resolved False by (simp add: handleSendMessage_try_def get_prop_Inr)
      then show ?thesis using Resolved False by (intro exI [of _ ?ai]) simp
    qed
  qed
  then obtain e where e: "handleSendMessage_try c' out s' = s'\<lparr>messages := messages s' @ [e]\<rparr>"
      "type_msg e = ?kind"
    by blast
  have "resume HandleSendMessage_k c' out s' =
        (s'\<lparr>messages := messages s' @ [e], isLoading := False\<rparr>, [])"
    using e(1) by (simp add: handleSendMessage_resume_def)
  then have "\<exists>e. resume HandleSendMessage_k c' out s' =
                 (s'\<lparr>messages := messages s' @ [e], isLoading := False\<rparr>, [])
              \<and> type_msg e = ?kind"
    using e(2) by (intro exI [of _ e]) simp
  then show ?thesis using assms by (simp add: handleSendMessage_def)
qed

text \<open>
  The query "hi" sent at 1000 from the initial state, its request failing with a network
  error at 1001.
\<close>

theorem send_appends_user_then_entry_by_try_outcome_witness:
  "trim (inputValue (initial_state\<lparr>inputValue := ascii ''hi''\<rparr>)) \<noteq> []
   \<and> map type_msg
       (messages (fst (handleSendMessage at_1000 (initial_state\<lparr>inputValue := ascii ''hi''\<rparr>))))
     = [User]
   \<and> (\<exists>e. resume HandleSendMessage_k at_1001 network_error initial_state =
             (initial_state\<lparr>messages := messages initial_state @ [e], isLoading := False\<rparr>, [])
          \<and> type_msg e = Error)"
proof -
  have h: "trim (inputValue (initial_state\<lparr>inputValue := ascii ''hi''\<rparr>)) \<noteq> []"
    by (simp add: text_defs)
  show ?thesis
    using h send_appends_user_then_entry_by_try_outcome
      [OF h, of at_1000 at_1001 network_error initial_state]
    by (simp add: network_error_def initial_state_def)
qed

text \<open>
  Claim C9. A send while the input is empty or all white space returns the state as it
  was and no effect: no entry, no request, the input kept, the loading flag untouched.
\<close>

theorem blank_send_does_nothing:
  "trim (inputValue s) = [] \<Longrightarrow> handleSendMessage c s = (s, [])"
  by (simp add: handleSendMessage_def)

text \<open>Three spaces in the input.\<close>

theorem blank_send_does_nothing_witness:
  "trim (inputValue (initial_state\<lparr>inputValue := ascii ''   ''\<rparr>)) = []
   \<and> handleSendMessage at_1000 (initial_state\<lparr>inputValue := ascii ''   ''\<rparr>)
       = (initial_state\<lparr>inputValue := ascii ''   ''\<rparr>, [])"
proof -
  have h: "trim (inputValue (initial_state\<lparr>inputValue := ascii ''   ''\<rparr>)) = []"
    by (simp add: text_defs)
  show ?thesis using h blank_send_does_nothing [OF h] by simp
qed

section \<open>The document list\<close>


section \<open>Upload progress\<close>

text \<open>When the transfer ends, on either path, \<open>finally\<close> puts the progress back to 0.\<close>

lemma upload_end_resets_progress:
  "uploadProgress (fst (handleFileUpload_resume msgs c out s)) = Finite 0
   \<and> isLoading (fst (handleFileUpload_resume msgs c out s)) = False"
  by (simp add: handleFileUpload_resume_def split: prod.splits)

text \<open>
  Against claim C7 as it is worded. An upload whose progress events report 250 and then
  500 of 1000 bytes reads 25 and 50; the request then resolves with the marker
  \<open>success\<close>, the success notice is appended and the progress is 0: the readings of
  this successful transfer never reach 100. And for 101000000000051 of 200000000000101
  bytes the double quotient is 50.5 and the reading 51, where the exact quotient, just
  below 50.5, rounds to 50.
\<close>

theorem successful_upload_ends_below_100:
  "map_option (uploadProgress \<circ> app)
     (run [Settle 0 health_ok at_1000, Settle 0 documents_ok at_1000, SetCurrentPage Chat,
           ChangeFile (Some report_pdf) 2025, UploadProgress 0 sent_250_of_1000,
           UploadProgress 0 sent_500_of_1000] mounted)
   = Some (Finite 50)
   \<and> map_option (map type_msg \<circ> messages \<circ> app)
     (run [Settle 0 health_ok at_1000, Settle 0 documents_ok at_1000, SetCurrentPage Chat,
           ChangeFile (Some report_pdf) 2025, UploadProgress 0 sent_250_of_1000,
           UploadProgress 0 sent_500_of_1000, Settle 0 upload_ok at_1001] mounted)
   = Some [Success]
   \<and> map_option (uploadProgress \<circ> app)
     (run [Settle 0 health_ok at_1000, Settle 0 documents_ok at_1000, SetCurrentPage Chat,
           ChangeFile (Some report_pdf) 2025, UploadProgress 0 sent_250_of_1000,
           UploadProgress 0 sent_500_of_1000, Settle 0 upload_ok at_1001] mounted)
   = Some (Finite 0)
   \<and> percentComplete sent_101_of_200_terabytes = Finite 51
   \<and> round (101000000000051 / 200000000000101 * 100 :: rat) = 50"
proof -
  have "round (101000000000051 / 200000000000101 * 100 :: rat) = 50"
    by (simp add: round_def floor_numeral_div)
  then show ?thesis
    using percent_terabytes
    by (simp add: handler_defs system_defs text_defs scenario_defs percent_250 percent_500)
qed

text \<open>
  Claim C7, amended. Every progress event with a known total other than zero sets
  \<open>uploadProgress\<close> to \<open>Math.round\<close> of the double quotient
  \<open>(bytesSent * 100) / totalBytes\<close>. For the events of one transfer whose byte counts
  do not decrease, the successive values do not decrease, and an event that reports all
  the bytes sent reads 100. As long as \<open>bytesSent * 100 < 2 ^ 52\<close> and
  \<open>totalBytes < 2 ^ 53\<close> the value is the exact \<open>round (bytesSent / totalBytes * 100)\<close>,
  a tie going up. Nothing makes the last event of a successful transfer report the total,
  and when the request settles, on success or on failure, the progress is put back to 0.
\<close>

theorem upload_progress_monotone_and_rounded:
  assumes "0 < unat t" and "\<forall>ev \<in> set evs. total ev = Some t"
    and "sorted (map (unat \<circ> loaded) evs)"
  shows "sorted_wrt js_le (progress_readings s evs)
       \<and> (\<forall>i < length evs. loaded (evs ! i) = t \<longrightarrow> progress_readings s evs ! i = Finite 100)
       \<and> (unat t < 2 ^ 53 \<and> (\<forall>ev \<in> set evs. unat (loaded ev) * 100 < 2 ^ 52) \<longrightarrow>
            progress_readings s evs =
              map (\<lambda>ev. Finite (round (of_nat (unat (loaded ev)) / of_nat (unat t) * 100 :: rat)))
                evs)
       \<and> uploadProgress (fst (handleFileUpload_resume msgs c out s')) = Finite 0"
proof (intro conjI allI impI)
  show "sorted_wrt js_le (progress_readings s evs)"
    using assms unfolding readings_map
    by (induction evs) (auto simp add: percent_mono)
next
  fix i
  assume "i < length evs" and "loaded (evs ! i) = t"
  moreover from this assms(2) have "total (evs ! i) = Some t" by simp
  ultimately show "progress_readings s evs ! i = Finite 100"
    using assms(1) by (simp add: readings_map percent_full)
next
  assume "unat t < 2 ^ 53 \<and> (\<forall>ev \<in> set evs. unat (loaded ev) * 100 < 2 ^ 52)"
  then show "progress_readings s evs =
      map (\<lambda>ev. Finite (round (of_nat (unat (loaded ev)) / of_nat (unat t) * 100 :: rat))) evs"
    using assms(1,2) by (simp add: readings_map percent_exact)
next
  show "uploadProgress (fst (handleFileUpload_resume msgs c out s')) = Finite 0"
    using upload_end_resets_progress by blast
qed

text \<open>
  A transfer of 1000 bytes reporting 250, 505 and 1000 bytes sent: the readings are 25,
  51 (the tie 50.5 goes up) and 100.
\<close>

theorem upload_progress_monotone_and_rounded_witness:
  "0 < unat (1000 :: 64 word)
   \<and> sorted (map (unat \<circ> loaded) [sent_250_of_1000, sent_505_of_1000, sent_1000_of_1000])
   \<and> progress_readings initial_state [sent_250_of_1000, sent_505_of_1000, sent_1000_of_1000]
      = [Finite 25, Finite 51, Finite 100]
   \<and> sorted_wrt js_le
        (progress_readings initial_state
          [sent_250_of_1000, sent_505_of_1000, sent_1000_of_1000])"
  using upload_progress_monotone_and_rounded
    [of 1000 "[sent_250_of_1000, sent_505_of_1000, sent_1000_of_1000]" initial_state]
  by (simp add: sent_250_of_1000_def sent_505_of_1000_def sent_1000_of_1000_def
      round_def floor_numeral_div)

section \<open>Chat: what decides the terminal entry\<close>

text \<open>
  Against claim C10 as it is worded: a chat request that resolves with the body \<open>null\<close>
  appends an error entry, although its promise was not rejected. Reading \<open>answer\<close>
  from \<open>null\<close> throws inside the \<open>try\<close> block and the \<open>catch\<close> branch runs.
\<close>

theorem resolved_null_body_appends_error:
  "map type_msg
     (messages (fst (handleSendMessage_resume at_1001 (Resolved \<lparr>data = JNull\<rparr>) initial_state)))
   = [Error]"
  by (simp add: handler_defs initial_state_def)

text \<open>
  Claim C10, amended. The entry appended when a chat request settles is decided by how
  the \<open>try\<close> block ends, and no status marker is looked at. A response that resolves
  with a body other than \<open>null\<close> and \<open>undefined\<close> appends an assistant entry whose
  content and sources are the \<open>answer\<close> and \<open>sources\<close> of the body as they are
  (\<open>undefined\<close> when the body has none). The error entry with the fixed text is
  appended exactly when the promise rejects or the body is \<open>null\<close> or \<open>undefined\<close>.
\<close>

theorem chat_terminal_entry_by_outcome:
  "handleSendMessage_resume c out s =
     (s\<lparr>messages := messages s @
          [case out of
             Rejected err \<Rightarrow>
               \<lparr>id_msg = Date_now c + 1, type_msg = Error, content = JStr connect_error_text,
                sources = None, timestamp = new_Date c\<rparr>
           | Resolved r \<Rightarrow>
               if data r = JNull \<or> data r = JUndefined
               then \<lparr>id_msg = Date_now c + 1, type_msg = Error,
                     content = JStr connect_error_text,
                     sources = None, timestamp = new_Date c\<rparr>
               else \<lparr>id_msg = Date_now c + 1, type_msg = Assistant,
                     content = get_prop_opt (data r) (ascii ''answer''),
                     sources = Some (get_prop_opt (data r) (ascii ''sources'')),
                     timestamp = new_Date c\<rparr>],
        isLoading := False\<rparr>, [])"
proof (cases out)
  case (Rejected err)
  then show ?thesis
    by (simp add: handleSendMessage_resume_def handleSendMessage_try_def
        handleSendMessage_catch_def)
next
  case (Resolved r)
  show ?thesis
  proof (cases "data r = JNull \<or> data r = JUndefined")
    case True
    then show ?thesis using Resolved
      by (auto simp add: handleSendMessage_resume_def handleSendMessage_try_def
          handleSendMessage_catch_def)
  next
    case False
    then show ?thesis using Resolved
      by (simp add: handleSendMessage_resume_def handleSendMessage_try_def get_prop_Inr)
  qed
qed

text \<open>
  A response that carries a failure marker and no answer still appends an assistant
  entry, with \<open>undefined\<close> for content and sources.
\<close>

theorem chat_terminal_entry_by_outcome_witness:
  "handleSendMessage_resume at_1001 status_error initial_state =
     (initial_state\<lparr>messages :=
        [\<lparr>id_msg = 1002, type_msg = Assistant, content = JUndefined,
          sources = Some JUndefined, timestamp = 1001\<rparr>]\<rparr>, [])"
  using chat_terminal_entry_by_outcome [of at_1001 status_error initial_state]
  by (simp add: status_error_def at_1001_def initial_state_def get_prop_opt_def text_defs)

section \<open>Where the component departs from its description\<close>

subsection \<open>The offline status and the inputs\<close>

text \<open>
  While the status is \<open>offline\<close> the text input and the submit button are disabled, so
  no query can be typed or sent. The file input is disabled by the loading flag alone.
\<close>

lemma offline_disables_chat:
  "apiStatus (app cfg) = Offline \<Longrightarrow>
   \<not> enabled (SubmitForm c) cfg \<and> \<not> enabled (ChangeInput v) cfg"
  by (simp add: renderChat_def)

lemma file_input_ignores_status: "file_input_disabled (renderChat s) = isLoading s"
  by (simp add: renderChat_def)

text \<open>
  Claim C2 fails on the code. Both requests of the mount effect fail, so the status is
  \<open>offline\<close>; the user opens the chat page and picks a file. The change event is
  accepted, \<open>handleFileUpload\<close> runs and the upload is in flight while the status is
  still \<open>offline\<close>.
\<close>

theorem upload_dispatched_while_offline:
  "map_option (apiStatus \<circ> app)
     (run [Settle 0 network_error at_1000, Settle 0 network_error at_1000, SetCurrentPage Chat,
           ChangeFile (Some report_pdf) 2025] mounted)
   = Some Offline
   \<and> map_option (map snd \<circ> inflight)
     (run [Settle 0 network_error at_1000, Settle 0 network_error at_1000, SetCurrentPage Chat,
           ChangeFile (Some report_pdf) 2025] mounted)
   = Some [HandleFileUpload_k []]"
  by (simp add: handler_defs system_defs text_defs scenario_defs)

subsection \<open>The health probe\<close>

text \<open>
  What \<open>checkApiHealth\<close> does to the status: \<open>offline\<close> when the request is rejected
  or the body cannot be read, \<open>online\<close> when the marker is \<open>success\<close>, and no change
  for any other marker.
\<close>

lemma health_probe_status:
  "apiStatus (fst (checkApiHealth_resume out s)) =
     (case out of
        Rejected e \<Rightarrow> Offline
      | Resolved r \<Rightarrow>
          if data r = JNull \<or> data r = JUndefined then Offline
          else if get_prop_opt (data r) (ascii ''status'') = success then Online
          else apiStatus s)"
proof (cases out)
  case (Rejected e)
  then show ?thesis by (simp add: checkApiHealth_resume_def checkApiHealth_catch_def)
next
  case (Resolved r)
  show ?thesis
  proof (cases "data r = JNull \<or> data r = JUndefined")
    case True
    then show ?thesis using Resolved
      by (auto simp add: checkApiHealth_resume_def checkApiHealth_catch_def)
  next
    case False
    then show ?thesis using Resolved
      by (simp add: checkApiHealth_resume_def get_prop_Inr)
  qed
qed

text \<open>
  Claim C3 fails on the code. The health request of the mount effect resolves with the
  marker \<open>error\<close>: nothing is set and the status stays \<open>checking\<close>, where the claim has
  \<open>offline\<close>.
\<close>

theorem health_failure_marker_keeps_checking:
  "checkApiHealth_resume status_error initial_state = (initial_state, [])
   \<and> map_option (apiStatus \<circ> app) (run [Settle 0 status_error at_1000] mounted) = Some Checking"
  by (simp add: handler_defs system_defs text_defs scenario_defs)

subsection \<open>A refused upload\<close>

text \<open>
  When the upload request is rejected, one error entry is written after the captured
  list. Its text carries the \<open>message\<close> of the server's reply when the reply has a truthy
  one, and the message of the error otherwise.
\<close>

lemma upload_rejection_appends_error:
  "handleFileUpload_resume msgs c (Rejected e) s =
     (s\<lparr>messages := msgs @
          [\<lparr>id_msg = Date_now c, type_msg = Error, content = JStr (upload_error_text e),
            sources = None, timestamp = new_Date c\<rparr>],
        isLoading := False, uploadProgress := Finite 0\<rparr>, [])"
  by (simp add: handleFileUpload_resume_def handleFileUpload_try_def handleFileUpload_catch_def)

text \<open>
  Claim C4 fails on the code. With the backend online the user uploads a file and the
  request resolves with the marker \<open>error\<close> and a message. The \<open>if\<close> has no
  \<open>else\<close>: no entry is appended, the conversation stays empty, and only the loading
  flag and the progress are reset.
\<close>

theorem refused_upload_appends_nothing:
  "map_option app
     (run [Settle 0 health_ok at_1000, Settle 0 documents_ok at_1000, SetCurrentPage Chat,
           ChangeFile (Some report_pdf) 2025, Settle 0 upload_refused at_1001] mounted)
   = Some (initial_state\<lparr>currentPage := Chat, apiStatus := Online\<rparr>)
   \<and> messages (initial_state\<lparr>currentPage := Chat, apiStatus := Online\<rparr>) = []"
  by (simp add: handler_defs system_defs text_defs scenario_defs)

subsection \<open>Entries lost to a stale list\<close>

text \<open>
  Claim C5 fails on the code. First run: on the empty chat page the user clicks "Load
  Sample Data", then sends a query. The chat request resolves first: the conversation
  holds the user entry and the assistant entry. Then the seed request resolves, and
  \<open>loadSampleData\<close> writes the list it captured at the click (the empty one) with its
  notice: both earlier entries are gone. Second run: the user picks a file, then clicks
  "Load Sample Data". The seed request resolves at 1000 and its notice is the
  conversation; the upload resolves at 1001 and \<open>handleFileUpload\<close> writes the list it
  captured with its own notice: the notice of 1000 is gone.
\<close>

theorem seed_completion_drops_entries:
  "map_option (map type_msg \<circ> messages \<circ> app)
     (run [Settle 0 health_ok at_1000, Settle 0 documents_ok at_1000, SetCurrentPage Chat,
           ClickLoadSampleData, ChangeInput (ascii ''a''), SubmitForm at_1000,
           Settle 1 chat_ok at_1000] mounted)
   = Some [User, Assistant]
   \<and> map_option (map type_msg \<circ> messages \<circ> app)
     (run [Settle 0 health_ok at_1000, Settle 0 documents_ok at_1000, SetCurrentPage Chat,
           ClickLoadSampleData, ChangeInput (ascii ''a''), SubmitForm at_1000,
           Settle 1 chat_ok at_1000, Settle 0 init_ok at_1001] mounted)
   = Some [Success]
   \<and> map_option (map id_msg \<circ> messages \<circ> app)
     (run [Settle 0 health_ok at_1000, Settle 0 documents_ok at_1000, SetCurrentPage Chat,
           ChangeFile (Some report_pdf) 2025, ClickLoadSampleData,
           Settle 1 init_ok at_1000] mounted)
   = Some [1000]
   \<and> map_option (map id_msg \<circ> messages \<circ> app)
     (run [Settle 0 health_ok at_1000, Settle 0 documents_ok at_1000, SetCurrentPage Chat,
           ChangeFile (Some report_pdf) 2025, ClickLoadSampleData,
           Settle 1 init_ok at_1000, Settle 0 upload_ok at_1001] mounted)
   = Some [1001]"
  by (simp add: handler_defs system_defs text_defs scenario_defs)

subsection \<open>Entries with the same id\<close>

text \<open>
  Claim C8 fails on the code. First run: a query is sent at 1000 and answered within the
  same millisecond, so the assistant entry gets 1001; the next query, sent at 1001, gets
  1001 too. Second run: the seed request resolves at 1000 and a query is sent within the
  same millisecond; the notice and the user entry both get 1000.
\<close>

theorem entries_share_an_id:
  "map_option (map id_msg \<circ> messages \<circ> app)
     (run [Settle 0 health_ok at_1000, Settle 0 documents_ok at_1000, SetCurrentPage Chat,
           ChangeInput (ascii ''a''), SubmitForm at_1000, Settle 0 chat_ok at_1000,
           ChangeInput (ascii ''b''), SubmitForm at_1001] mounted)
   = Some [1000, 1001, 1001]
   \<and> map_option (map id_msg \<circ> messages \<circ> app)
     (run [Settle 0 health_ok at_1000, Settle 0 documents_ok at_1000, SetCurrentPage Chat,
           ClickLoadSampleData, ChangeInput (ascii ''a''), Settle 0 init_ok at_1000,
           SubmitForm at_1000] mounted)
   = Some [1000, 1000]"
  by (simp add: handler_defs system_defs text_defs scenario_defs)

end
